theory Spec2Isabelle
  imports Main "HOL-Library.Char_ord" "HOL-Library.List_Lexorder"
begin

section \<open>Python values, exceptions and observable effects\<close>

text \<open>
  The module \<^verbatim>\<open>fairing/kubernetes/manager.py\<close> talks to the cluster through the
  kubernetes client. The client is not part of the module, so every call into it is a
  parameter of the model (the record \<open>api\<close> below), and everything the module does
  that is visible from outside (printing, logging, opening a watch, taking an event,
  asking for a pod log, releasing the connection) is recorded, in order, in a trace.
  A function of the module returns its trace together with either the exception that
  escapes it (\<open>Inl\<close>) or its return value (\<open>Inr\<close>).
\<close>

datatype exn_class =
  ValueError | UnicodeDecodeError | ApiException | AttributeError | TypeError
  | IndexError | RuntimeError | OtherError

text \<open>An exception: its class and the text \<^verbatim>\<open>str(e)\<close> gives.\<close>

datatype exn = Exn exn_class string

fun exn_class_of :: "exn \<Rightarrow> exn_class" where
  "exn_class_of (Exn c m) = c"

fun exn_str :: "exn \<Rightarrow> string" where
  "exn_str (Exn c m) = m"

datatype level = DEBUG | INFO | WARNING | ERROR

datatype kind = Services | Pods

datatype effect =
    Print string
  | Log level string
  | Stream kind string string
  | Consume
  | ReadPodLog string string bool string
  | ReleaseConn

text \<open>
  \<open>Stream k ns sel\<close>: \<^verbatim>\<open>w.stream(v1.list_namespaced_..., namespace=ns, label_selector=sel)\<close>;
  \<open>Consume\<close>: the \<^verbatim>\<open>for\<close> loop takes one event from the watch;
  \<open>ReadPodLog n ns follow container\<close>: the call of \<^verbatim>\<open>read_namespaced_pod_log\<close>;
  \<open>ReleaseConn\<close>: \<^verbatim>\<open>tail.release_conn()\<close>.
\<close>

text \<open>
  A generator of the client is the list of what it delivers: a value, or an exception
  raised in place of the next value. The end of the list is the end of the iteration.
\<close>

datatype 'a stream_item = Event 'a | Raise exn

record 'a event =
  ev_type :: string
  ev_object :: 'a

text \<open>\<^verbatim>\<open>"{}".format(x)\<close> and \<^verbatim>\<open>"%s" % x\<close> for an optional string.\<close>

fun py_str :: "string option \<Rightarrow> string" where
  "py_str None = ''None''"
| "py_str (Some s) = s"

fun py_bool_str :: "bool \<Rightarrow> string" where
  "py_bool_str True = ''True''"
| "py_bool_str False = ''False''"

text \<open>\<^verbatim>\<open>a or b\<close> on optional strings: \<open>None\<close> and the empty string are falsy.\<close>

fun py_or :: "string option \<Rightarrow> string option \<Rightarrow> string option" where
  "py_or None b = b"
| "py_or (Some s) b = (if s = [] then b else Some s)"

text \<open>\<^verbatim>\<open>sep.join(xs)\<close>\<close>

fun join :: "string \<Rightarrow> string list \<Rightarrow> string" where
  "join sep [] = []"
| "join sep [x] = x"
| "join sep (x # y # ys) = x @ sep @ join sep (y # ys)"

section \<open>The label selector\<close>

text \<open>
  A Python dict iterates in insertion order, so the selector is the list of its items in
  that order. The argument \<^verbatim>\<open>selectors\<close> defaults to \<^verbatim>\<open>None\<close>.
  \<^verbatim>\<open>', '.join("{}={}".format(k, v) for (k, v) in selectors.items())\<close>
\<close>

type_synonym selector = "(string \<times> string) list"

definition label_selector_str :: "selector \<Rightarrow> string" where
  "label_selector_str items = join '', '' (map (\<lambda>(k, v). k @ ''='' @ v) items)"

text \<open>
  The serialisation in the words of the specification: the \<^verbatim>\<open>key=value\<close> pairs, keys
  sorted, joined by a comma. It is not taken from the code; it is compared with it.
\<close>

definition label_selector_spec :: "selector \<Rightarrow> string" where
  "label_selector_spec items = join '','' (map (\<lambda>(k, v). k @ ''='' @ v) (sort_key fst items))"

text \<open>\<^verbatim>\<open>selectors.items()\<close> on \<^verbatim>\<open>None\<close> raises (the quotes of the message are left out).\<close>

definition none_items :: exn where
  "none_items = Exn AttributeError ''NoneType object has no attribute items''"

section \<open>The watch loop and its error boundary\<close>

text \<open>
  What one iteration of a watch loop decides: go on with the next event, leave the
  loop with a value (\<^verbatim>\<open>return url\<close>, or \<^verbatim>\<open>tail = ...; break\<close>), or raise.
\<close>

datatype 'r step = Continue | Break 'r | Raised exn

fun watch_loop ::
  "('a \<Rightarrow> effect list \<times> 'r step) \<Rightarrow> 'a stream_item list \<Rightarrow> effect list \<times> 'r step" where
  "watch_loop body [] = ([], Continue)"
| "watch_loop body (Raise e # rest) = ([], Raised e)"
| "watch_loop body (Event ev # rest) =
     (case body ev of
        (t, Continue) \<Rightarrow> (case watch_loop body rest of (t', r) \<Rightarrow> (Consume # t @ t', r))
      | (t, r) \<Rightarrow> (Consume # t, r))"

text \<open>
  \<^verbatim>\<open>except ValueError as v: ...  except client.rest.ApiException as e: ...\<close>
  \<^verbatim>\<open>UnicodeDecodeError\<close> is a subclass of \<^verbatim>\<open>ValueError\<close>.
\<close>

fun caught :: "exn_class \<Rightarrow> bool" where
  "caught ValueError = True"
| "caught UnicodeDecodeError = True"
| "caught ApiException = True"
| "caught _ = False"

definition status_error :: "string \<Rightarrow> exn \<Rightarrow> effect" where
  "status_error name e = Log ERROR (''error getting status for '' @ name @ '' '' @ exn_str e)"

fun watch_boundary :: "string \<Rightarrow> 'r step \<Rightarrow> effect list \<times> (exn + 'r option)" where
  "watch_boundary name Continue = ([], Inr None)"
| "watch_boundary name (Break r) = ([], Inr (Some r))"
| "watch_boundary name (Raised e) =
     (if caught (exn_class_of e) then ([status_error name e], Inr None) else ([], Inl e))"

section \<open>Snapshots and the client\<close>

text \<open>
  A service snapshot as the loop reads it: \<^verbatim>\<open>svc.status.load_balancer.ingress\<close>, an
  optional list of entries with an optional \<^verbatim>\<open>ip\<close> and \<^verbatim>\<open>hostname\<close>. \<open>to_str\<close> is the
  text the client prints for the object (the debug line formats it). The objects
  \<^verbatim>\<open>status\<close> and \<^verbatim>\<open>load_balancer\<close> are taken to be present, as the API server sends them.
\<close>

record ingress_entry =
  ip :: "string option"
  hostname :: "string option"

record service =
  ingress :: "ingress_entry list option"
  to_str :: string

text \<open>
  A pod snapshot as the loop reads it: \<^verbatim>\<open>pod.metadata.name\<close>, \<^verbatim>\<open>pod.status.phase\<close> and
  \<^verbatim>\<open>pod.status.container_statuses\<close>, an optional list. Of a container status the loop
  reads \<^verbatim>\<open>ready\<close> and \<^verbatim>\<open>state\<close>, of a state \<^verbatim>\<open>waiting\<close> (only whether it is there) and
  \<^verbatim>\<open>terminated\<close> (its \<^verbatim>\<open>reason\<close> and \<^verbatim>\<open>message\<close>). The objects \<^verbatim>\<open>metadata\<close> and
  \<^verbatim>\<open>status\<close> are taken to be present.
\<close>

record state_detail =
  reason :: "string option"
  message :: "string option"

record container_state =
  waiting :: "state_detail option"
  terminated :: "state_detail option"

record container_status =
  ready :: bool
  state :: "container_state option"

record pod =
  metadata_name :: string
  phase :: "string option"
  container_statuses :: "container_status list option"

text \<open>
  An open log response: \<^verbatim>\<open>tail.stream(amt)\<close> is a generator of byte chunks. Bytes and
  text are both \<open>string\<close>; a text is written as its UTF-8 bytes.
\<close>

type_synonym log_handle = "nat \<Rightarrow> string stream_item list"

text \<open>
  The client: the two watches (by namespace and label selector) and
  \<^verbatim>\<open>read_namespaced_pod_log(name, namespace, follow=..., container=...)\<close>, which returns
  the open response or raises.
\<close>

record api =
  list_namespaced_service :: "string \<Rightarrow> string \<Rightarrow> service event stream_item list"
  list_namespaced_pod :: "string \<Rightarrow> string \<Rightarrow> pod event stream_item list"
  read_namespaced_pod_log :: "string \<Rightarrow> string \<Rightarrow> bool \<Rightarrow> string \<Rightarrow> exn + log_handle"

section \<open>Endpoint discovery\<close>

definition service_step :: "service event \<Rightarrow> effect list \<times> string step" where
  "service_step event =
     (let svc = ev_object event;
          dbg = Log DEBUG (''Event: '' @ ev_type event @ '' '' @ to_str svc)
      in case ingress svc of
           Some (i # _) \<Rightarrow>
             ([dbg], Break (''http://'' @ py_str (py_or (ip i) (hostname i)) @ '':5000/predict''))
         | _ \<Rightarrow> ([dbg], Continue))"

definition get_service_external_endpoint ::
  "api \<Rightarrow> string \<Rightarrow> string \<Rightarrow> selector option \<Rightarrow> effect list \<times> (exn + string option)" where
  "get_service_external_endpoint a name namespace selectors =
     (case selectors of
        None \<Rightarrow> ([], Inl none_items)
      | Some items \<Rightarrow>
          (let sel = label_selector_str items;
               (t, s) = watch_loop service_step (list_namespaced_service a namespace sel);
               (t', r) = watch_boundary name s
           in ([Print ''Waiting for prediction endpoint to come up...'', Stream Services namespace sel]
                 @ t @ t', r)))"

section \<open>Pod log acquisition\<close>

text \<open>\<^verbatim>\<open>pod.status.container_statuses[0]\<close>\<close>

definition first_status :: "pod \<Rightarrow> exn + container_status" where
  "first_status p =
     (case container_statuses p of
        None \<Rightarrow> Inl (Exn TypeError ''NoneType object is not subscriptable'')
      | Some [] \<Rightarrow> Inl (Exn IndexError ''list index out of range'')
      | Some (c # _) \<Rightarrow> Inr c)"

text \<open>
  \<^verbatim>\<open>(pod.status.phase == 'Running' and pod.status.container_statuses[0].ready)
   or pod.status.phase == 'Succeeded'\<close>
\<close>

definition log_eligible :: "pod \<Rightarrow> exn + bool" where
  "log_eligible p =
     (if phase p = Some ''Running'' then
        (case first_status p of
           Inl e \<Rightarrow> Inl e
         | Inr c \<Rightarrow> Inr (ready c \<or> phase p = Some ''Succeeded''))
      else Inr (phase p = Some ''Succeeded''))"

text \<open>\<^verbatim>\<open>pod.status.container_statuses[0].state.waiting\<close>, as a condition\<close>

definition first_waiting :: "pod \<Rightarrow> exn + bool" where
  "first_waiting p =
     (case first_status p of
        Inl e \<Rightarrow> Inl e
      | Inr c \<Rightarrow>
          (case state c of
             None \<Rightarrow> Inl (Exn AttributeError ''NoneType object has no attribute waiting'')
           | Some st \<Rightarrow> Inr (waiting st \<noteq> None)))"

text \<open>
  \<^verbatim>\<open>event['type'] == 'DELETED' or pod.status.phase == 'Failed'
   or pod.status.container_statuses[0].state.waiting\<close>
\<close>

definition launch_failed :: "pod event \<Rightarrow> exn + bool" where
  "launch_failed event =
     (if ev_type event = ''DELETED'' then Inr True
      else if phase (ev_object event) = Some ''Failed'' then Inr True
      else first_waiting (ev_object event))"

text \<open>
  The arguments \<^verbatim>\<open>pod.status.container_statuses[0].state.terminated.reason\<close> and
  \<^verbatim>\<open>....terminated.message\<close> of the error line.
\<close>

definition terminated_detail :: "pod \<Rightarrow> exn + state_detail" where
  "terminated_detail p =
     (case first_status p of
        Inl e \<Rightarrow> Inl e
      | Inr c \<Rightarrow>
          (case state c of
             None \<Rightarrow> Inl (Exn AttributeError ''NoneType object has no attribute terminated'')
           | Some st \<Rightarrow>
               (case terminated st of
                  None \<Rightarrow> Inl (Exn AttributeError ''NoneType object has no attribute reason'')
                | Some d \<Rightarrow> Inr d)))"

text \<open>\<^verbatim>\<open>tail = v1.read_namespaced_pod_log(pod.metadata.name, namespace, ...); break\<close>\<close>

definition open_tail ::
  "api \<Rightarrow> string \<Rightarrow> bool \<Rightarrow> string \<Rightarrow> pod \<Rightarrow> effect list \<times> log_handle step" where
  "open_tail a namespace follow container p =
     ([ReadPodLog (metadata_name p) namespace follow container],
      (case read_namespaced_pod_log a (metadata_name p) namespace follow container of
         Inl e \<Rightarrow> Raised e
       | Inr h \<Rightarrow> Break h))"

definition pod_step ::
  "api \<Rightarrow> string \<Rightarrow> bool \<Rightarrow> string \<Rightarrow> pod event \<Rightarrow> effect list \<times> log_handle step" where
  "pod_step a namespace follow container event =
     (let p = ev_object event;
          dbg = Log DEBUG (''Event: '' @ ev_type event @ '' '' @ metadata_name p @ '' ''
                           @ py_str (phase p))
      in if phase p = Some ''Pending'' then
           ([dbg, Log WARNING (''Waiting for '' @ metadata_name p @ '' to start...'')], Continue)
         else
           (case log_eligible p of
              Inl e \<Rightarrow> ([dbg], Raised e)
            | Inr True \<Rightarrow>
                (case first_status p of
                   Inl e \<Rightarrow> ([dbg], Raised e)
                 | Inr c \<Rightarrow>
                     (case open_tail a namespace follow container p of
                        (t, r) \<Rightarrow>
                          (dbg # Log INFO (''Pod started running '' @ py_bool_str (ready c)) # t, r)))
            | Inr False \<Rightarrow>
                (case launch_failed event of
                   Inl e \<Rightarrow> ([dbg], Raised e)
                 | Inr True \<Rightarrow>
                     (case terminated_detail p of
                        Inl e \<Rightarrow> ([dbg], Raised e)
                      | Inr d \<Rightarrow>
                          (case open_tail a namespace follow container p of
                             (t, r) \<Rightarrow>
                               (dbg # Log ERROR (''Failed to launch '' @ metadata_name p
                                                 @ '', reason: '' @ py_str (reason d)
                                                 @ '', message: '' @ py_str (message d)) # t, r)))
                 | Inr False \<Rightarrow> ([dbg], Continue))))"

text \<open>\<^verbatim>\<open>chunk.rstrip()\<close> on bytes: the ASCII whitespace at the end goes.\<close>

definition is_space :: "char \<Rightarrow> bool" where
  "is_space c = (of_char c \<in> {9, 10, 11, 12, 13, 32 :: nat})"

definition rstrip :: "string \<Rightarrow> string" where
  "rstrip bs = rev (dropWhile is_space (rev bs))"

text \<open>
  \<^verbatim>\<open>.decode('utf8')\<close>: strict UTF-8 (no overlong forms, no surrogates, nothing above
  U+10FFFF). The text is kept as its bytes.
\<close>

definition cont :: "nat \<Rightarrow> bool" where
  "cont b = (128 \<le> b \<and> b \<le> 191)"

fun utf8_valid :: "nat list \<Rightarrow> bool" where
  "utf8_valid [] = True"
| "utf8_valid (b # bs) =
     (if b < 128 then utf8_valid bs
      else if 194 \<le> b \<and> b \<le> 223 then
        (case bs of c1 # r \<Rightarrow> cont c1 \<and> utf8_valid r | _ \<Rightarrow> False)
      else if 224 \<le> b \<and> b \<le> 239 then
        (case bs of
           c1 # c2 # r \<Rightarrow>
             cont c1 \<and> cont c2 \<and> (if b = 224 then 160 \<le> c1 else True)
             \<and> (if b = 237 then c1 \<le> 159 else True)
             \<and> utf8_valid r
         | _ \<Rightarrow> False)
      else if 240 \<le> b \<and> b \<le> 244 then
        (case bs of
           c1 # c2 # c3 # r \<Rightarrow>
             cont c1 \<and> cont c2 \<and> cont c3 \<and> (if b = 240 then 144 \<le> c1 else True)
             \<and> (if b = 244 then c1 \<le> 143 else True) \<and> utf8_valid r
         | _ \<Rightarrow> False)
      else False)"

definition decode_utf8 :: "string \<Rightarrow> exn + string" where
  "decode_utf8 bs =
     (if utf8_valid (map of_char bs) then Inr bs
      else Inl (Exn UnicodeDecodeError ''utf-8 codec cannot decode bytes''))"

definition MAX_STREAM_BYTES :: nat where
  "MAX_STREAM_BYTES = 1024"

text \<open>
  \<^verbatim>\<open>for chunk in tail.stream(MAX_STREAM_BYTES): print(chunk.rstrip().decode('utf8'))\<close>
\<close>

fun relay :: "string stream_item list \<Rightarrow> effect list \<times> (exn + unit)" where
  "relay [] = ([], Inr ())"
| "relay (Raise e # rest) = ([], Inl e)"
| "relay (Event chunk # rest) =
     (case decode_utf8 (rstrip chunk) of
        Inl e \<Rightarrow> ([], Inl e)
      | Inr line \<Rightarrow> (case relay rest of (t, r) \<Rightarrow> (Print line # t, r)))"

text \<open>\<^verbatim>\<open>if tail: try: ... finally: tail.release_conn()\<close>\<close>

definition drain :: "log_handle option \<Rightarrow> effect list \<times> (exn + unit)" where
  "drain tail =
     (case tail of
        None \<Rightarrow> ([], Inr ())
      | Some h \<Rightarrow> (case relay (h MAX_STREAM_BYTES) of (t, r) \<Rightarrow> (t @ [ReleaseConn], r)))"

definition log ::
  "api \<Rightarrow> string \<Rightarrow> string \<Rightarrow> selector option \<Rightarrow> string \<Rightarrow> bool \<Rightarrow> effect list \<times> (exn + unit)" where
  "log a name namespace selectors container follow =
     (case selectors of
        None \<Rightarrow> ([], Inl none_items)
      | Some items \<Rightarrow>
          (let sel = label_selector_str items;
               (t, s) = watch_loop (pod_step a namespace follow container)
                          (list_namespaced_pod a namespace sel);
               (t', r) = watch_boundary name s
           in case r of
                Inl e \<Rightarrow> (Stream Pods namespace sel # t @ t', Inl e)
              | Inr tail \<Rightarrow>
                  (case drain tail of (t'', r') \<Rightarrow> (Stream Pods namespace sel # t @ t' @ t'', r'))))"

section \<open>Creating custom resources\<close>

text \<open>
  The names of the custom resources come from \<^verbatim>\<open>fairing.constants\<close>, which is another
  module: they are a parameter. So is \<^verbatim>\<open>CustomObjectsApi.create_namespaced_custom_object\<close>
  \<^verbatim>\<open>(group, version, namespace, plural, body)\<close>, which returns the created object or raises.
\<close>

record constants =
  TF_JOB_GROUP :: string
  TF_JOB_VERSION :: string
  TF_JOB_PLURAL :: string
  KFSERVING_GROUP :: string
  KFSERVING_VERSION :: string
  KFSERVING_PLURAL :: string

type_synonym ('j, 'r) create_custom_object =
  "string \<Rightarrow> string \<Rightarrow> string \<Rightarrow> string \<Rightarrow> 'j \<Rightarrow> exn + 'r"

definition create_tf_job ::
  "constants \<Rightarrow> ('j, 'r) create_custom_object \<Rightarrow> string \<Rightarrow> 'j \<Rightarrow> exn + 'r" where
  "create_tf_job c create_namespaced_custom_object namespace job =
     (case create_namespaced_custom_object (TF_JOB_GROUP c) (TF_JOB_VERSION c) namespace
             (TF_JOB_PLURAL c) job of
        Inr r \<Rightarrow> Inr r
      | Inl e \<Rightarrow>
          (if exn_class_of e = ApiException then
             Inl (Exn RuntimeError (''Failed to create TFJob. Perhaps the CRD TFJob version ''
                                    @ TF_JOB_VERSION c @ '' in not installed?''))
           else Inl e))"

definition create_kfserving ::
  "constants \<Rightarrow> ('j, 'r) create_custom_object \<Rightarrow> string \<Rightarrow> 'j \<Rightarrow> exn + 'r" where
  "create_kfserving c create_namespaced_custom_object namespace kfservice =
     (case create_namespaced_custom_object (KFSERVING_GROUP c) (KFSERVING_VERSION c) namespace
             (KFSERVING_PLURAL c) kfservice of
        Inr r \<Rightarrow> Inr r
      | Inl e \<Rightarrow>
          (if exn_class_of e = ApiException then
             Inl (Exn RuntimeError (''Failed to create KFService. Perhaps the CRD KFServing version ''
                                    @ KFSERVING_VERSION c @ '' is not installed?''))
           else Inl e))"

section \<open>Reading a trace\<close>

fun is_open :: "effect \<Rightarrow> bool" where
  "is_open (ReadPodLog n ns f c) = True"
| "is_open _ = False"

fun is_print :: "effect \<Rightarrow> bool" where
  "is_print (Print s) = True"
| "is_print _ = False"

fun is_stream :: "effect \<Rightarrow> bool" where
  "is_stream (Stream k ns s) = True"
| "is_stream _ = False"

fun is_log :: "effect \<Rightarrow> bool" where
  "is_log (Log l m) = True"
| "is_log _ = False"

fun is_error :: "effect \<Rightarrow> bool" where
  "is_error (Log ERROR m) = True"
| "is_error _ = False"

text \<open>The text of an error diagnostic blanked out, everything else kept.\<close>

fun redact :: "effect \<Rightarrow> effect" where
  "redact (Log ERROR m) = Log ERROR []"
| "redact e = e"

section \<open>The snapshots the properties speak about\<close>

text \<open>A service event without a routable address: the ingress list is absent or empty.\<close>

definition empty_ingress :: "service event \<Rightarrow> bool" where
  "empty_ingress event = (ingress (ev_object event) = None \<or> ingress (ev_object event) = Some [])"

text \<open>
  A pod event that is neither log-eligible nor a failure: the pod is pending, or it is
  not deleted, not failed, not succeeded, not running with its first container ready, and
  its first container status is there with a state that is not waiting.
\<close>

definition keeps_waiting :: "pod event \<Rightarrow> bool" where
  "keeps_waiting event =
     (let p = ev_object event
      in phase p = Some ''Pending'' \<or>
         (ev_type event \<noteq> ''DELETED'' \<and> phase p \<noteq> Some ''Failed'' \<and> phase p \<noteq> Some ''Succeeded''
          \<and> (case container_statuses p of
                Some (c # _) \<Rightarrow>
                  (if phase p = Some ''Running'' then \<not> ready c else True)
                  \<and> (case state c of Some st \<Rightarrow> waiting st = None | None \<Rightarrow> False)
              | _ \<Rightarrow> False)))"

text \<open>
  A log-eligible snapshot that carries its first container status: running with that
  container ready, or succeeded.
\<close>

definition log_ready :: "pod \<Rightarrow> bool" where
  "log_ready p =
     (case container_statuses p of
        Some (c # _) \<Rightarrow> (phase p = Some ''Running'' \<and> ready c) \<or> phase p = Some ''Succeeded''
      | _ \<Rightarrow> False)"

text \<open>
  A failure event whose first container status carries the terminated state \<open>d\<close>: not
  pending, not log-eligible, and deleted, failed or with the first container waiting.
\<close>

definition failed_launch :: "pod event \<Rightarrow> state_detail \<Rightarrow> bool" where
  "failed_launch event d =
     (let p = ev_object event
      in phase p \<noteq> Some ''Pending'' \<and> phase p \<noteq> Some ''Succeeded''
         \<and> (case container_statuses p of
               Some (c # _) \<Rightarrow>
                 (if phase p = Some ''Running'' then \<not> ready c else True)
                 \<and> (case state c of
                       Some st \<Rightarrow>
                         terminated st = Some d
                         \<and> (ev_type event = ''DELETED'' \<or> phase p = Some ''Failed''
                              \<or> waiting st \<noteq> None)
                     | None \<Rightarrow> False)
             | _ \<Rightarrow> False))"

section \<open>Concrete clients and snapshots\<close>

text \<open>A client that answers every watch and every log request the same way.\<close>

definition client ::
  "service event stream_item list \<Rightarrow> pod event stream_item list \<Rightarrow> exn + log_handle \<Rightarrow> api" where
  "client svcs pods tail =
     \<lparr>list_namespaced_service = (\<lambda>namespace sel. svcs),
      list_namespaced_pod = (\<lambda>namespace sel. pods),
      read_namespaced_pod_log = (\<lambda>n namespace follow container. tail)\<rparr>"

definition service_event :: "ingress_entry list option \<Rightarrow> service event" where
  "service_event ing = \<lparr>ev_type = ''MODIFIED'', ev_object = \<lparr>ingress = ing, to_str = ''svc''\<rparr>\<rparr>"

definition pod_event ::
  "string \<Rightarrow> string \<Rightarrow> container_status list option \<Rightarrow> pod event" where
  "pod_event ty ph cs =
     \<lparr>ev_type = ty,
      ev_object = \<lparr>metadata_name = ''job-0'', phase = Some ph, container_statuses = cs\<rparr>\<rparr>"

definition running_container :: "bool \<Rightarrow> container_status" where
  "running_container r = \<lparr>ready = r, state = Some \<lparr>waiting = None, terminated = None\<rparr>\<rparr>"

definition oom_killed :: state_detail where
  "oom_killed = \<lparr>reason = Some ''OOMKilled'', message = Some ''out of memory''\<rparr>"

definition terminated_container :: container_status where
  "terminated_container =
     \<lparr>ready = False, state = Some \<lparr>waiting = None, terminated = Some oom_killed\<rparr>\<rparr>"

definition no_tail :: "exn + log_handle" where
  "no_tail = Inl (Exn ApiException ''(400) Bad Request'')"

definition two_lines :: "exn + log_handle" where
  "two_lines = Inr (\<lambda>amt. [Event ''epoch 1  '', Event ''epoch 2''])"

definition broken_tail :: "exn + log_handle" where
  "broken_tail = Inr (\<lambda>amt. [Event ''epoch 1'', Raise (Exn OtherError ''Connection broken'')])"

definition crd_names :: constants where
  "crd_names =
     \<lparr>TF_JOB_GROUP = ''kubeflow.org'', TF_JOB_VERSION = ''v1beta2'', TF_JOB_PLURAL = ''tfjobs'',
      KFSERVING_GROUP = ''serving.kubeflow.org'', KFSERVING_VERSION = ''v1alpha1'',
      KFSERVING_PLURAL = ''kfservices''\<rparr>"

section \<open>The watch loop\<close>

lemma watch_loop_skip:
  "list_all (\<lambda>ev. snd (body ev) = Continue) pre \<Longrightarrow>
   watch_loop body (map Event pre @ rest) =
     (concat (map (\<lambda>ev. Consume # fst (body ev)) pre) @ fst (watch_loop body rest),
      snd (watch_loop body rest))"
proof (induction pre)
  case Nil
  then show ?case by simp
next
  case (Cons ev pre)
  then obtain t where "body ev = (t, Continue)"
    by (cases "body ev") auto
  with Cons show ?case
    by (simp split: prod.splits)
qed

lemma watch_loop_stop:
  assumes "list_all (\<lambda>ev. snd (body ev) = Continue) pre" and "snd (body ev) \<noteq> Continue"
  shows "watch_loop body (map Event pre @ Event ev # rest) =
           (concat (map (\<lambda>ev. Consume # fst (body ev)) pre) @ Consume # fst (body ev),
            snd (body ev))"
proof -
  obtain t s where b: "body ev = (t, s)" by (cases "body ev")
  with assms(2) have "watch_loop body (Event ev # rest) = (Consume # t, s)"
    by (cases s) simp_all
  with b show ?thesis
    by (simp add: watch_loop_skip [OF assms(1)])
qed

lemma watch_loop_raise:
  assumes "list_all (\<lambda>ev. snd (body ev) = Continue) pre"
  shows "watch_loop body (map Event pre @ Raise e # rest) =
           (concat (map (\<lambda>ev. Consume # fst (body ev)) pre), Raised e)"
  by (simp add: watch_loop_skip [OF assms])

lemma watch_loop_effects:
  "(\<And>ev. set (fst (body ev)) \<subseteq> S) \<Longrightarrow> set (fst (watch_loop body evs)) \<subseteq> insert Consume S"
proof (induction evs)
  case Nil
  then show ?case by simp
next
  case (Cons x evs)
  show ?case
  proof (cases x)
    case (Event ev)
    obtain t s where b: "body ev = (t, s)" by (cases "body ev")
    have "set t \<subseteq> S" using Cons.prems [of ev] b by simp
    moreover have "set (fst (watch_loop body evs)) \<subseteq> insert Consume S"
      using Cons.IH Cons.prems by blast
    ultimately show ?thesis using Event b
      by (cases s) (auto split: prod.splits)
  next
    case (Raise e)
    then show ?thesis by simp
  qed
qed

lemma count_consume_skip:
  "(\<And>ev. Consume \<notin> set (fst (body ev))) \<Longrightarrow>
   count_list (concat (map (\<lambda>ev. Consume # fst (body ev)) pre)) Consume = length pre"
  by (induction pre) (simp_all add: count_list_0_iff)

lemma skipped_effects:
  "(\<And>ev. ev \<in> set pre \<Longrightarrow> list_all P (fst (body ev))) \<Longrightarrow> P Consume \<Longrightarrow>
   list_all P (concat (map (\<lambda>ev. Consume # fst (body ev)) pre))"
  by (induction pre) simp_all

lemma is_log_other:
  "is_log e \<Longrightarrow>
   \<not> is_open e \<and> e \<noteq> Consume \<and> e \<noteq> ReleaseConn \<and> \<not> is_print e \<and> \<not> is_stream e"
  by (cases e) simp_all

lemma is_print_other:
  "is_print e \<Longrightarrow>
   \<not> is_open e \<and> e \<noteq> Consume \<and> e \<noteq> ReleaseConn \<and> \<not> is_log e \<and> \<not> is_stream e"
  by (cases e) simp_all

lemma is_open_other:
  "is_open e \<Longrightarrow>
   \<not> is_print e \<and> e \<noteq> Consume \<and> e \<noteq> ReleaseConn \<and> \<not> is_log e \<and> \<not> is_stream e"
  by (cases e) simp_all

lemma boundary_logs: "list_all is_log (fst (watch_boundary name s))"
  by (cases s) (simp_all add: status_error_def)

lemma boundary_name:
  "snd (watch_boundary name s) = snd (watch_boundary name' s)
   \<and> map redact (fst (watch_boundary name s)) = map redact (fst (watch_boundary name' s))"
  by (cases s) (simp_all add: status_error_def)

section \<open>Endpoint discovery\<close>

lemma endpoint_unfold:
  "get_service_external_endpoint a name namespace (Some items) =
     (Print ''Waiting for prediction endpoint to come up...''
        # Stream Services namespace (label_selector_str items)
        # fst (watch_loop service_step (list_namespaced_service a namespace (label_selector_str items)))
        @ fst (watch_boundary name
                 (snd (watch_loop service_step
                         (list_namespaced_service a namespace (label_selector_str items))))),
      snd (watch_boundary name
             (snd (watch_loop service_step
                     (list_namespaced_service a namespace (label_selector_str items))))))"
  by (simp add: get_service_external_endpoint_def Let_def case_prod_beta)

lemma service_step_waiting:
  "empty_ingress ev \<Longrightarrow> snd (service_step ev) = Continue"
  by (auto simp: empty_ingress_def service_step_def Let_def)

lemma service_step_effects: "set (fst (service_step ev)) \<subseteq> range (Log DEBUG)"
  by (auto simp: service_step_def Let_def split: option.splits list.splits)

lemma service_step_no_consume: "Consume \<notin> set (fst (service_step ev))"
  using service_step_effects [of ev] by auto

lemma service_waiting_prefix:
  "list_all empty_ingress pre \<Longrightarrow> list_all (\<lambda>ev. snd (service_step ev) = Continue) pre"
  by (simp add: list_all_iff service_step_waiting)

lemma service_watch_resolves:
  assumes "list_all empty_ingress pre" and "ingress (ev_object ev) = Some (i # others)"
  shows "watch_loop service_step (map Event pre @ Event ev # rest) =
           (concat (map (\<lambda>ev. Consume # fst (service_step ev)) pre)
              @ [Consume, Log DEBUG (''Event: '' @ ev_type ev @ '' '' @ to_str (ev_object ev))],
            Break (''http://'' @ py_str (py_or (ip i) (hostname i)) @ '':5000/predict''))"
proof -
  have "service_step ev =
      ([Log DEBUG (''Event: '' @ ev_type ev @ '' '' @ to_str (ev_object ev))],
       Break (''http://'' @ py_str (py_or (ip i) (hostname i)) @ '':5000/predict''))"
    using assms(2) by (simp add: service_step_def Let_def)
  then show ?thesis
    using watch_loop_stop [OF service_waiting_prefix [OF assms(1)], of ev rest] by simp
qed

lemma service_watch_effects:
  "list_all (\<lambda>e. e = Consume \<or> is_log e) (fst (watch_loop service_step evs))"
proof -
  have "\<And>ev. set (fst (service_step ev)) \<subseteq> {e. is_log e}"
    using service_step_effects by fastforce
  from watch_loop_effects [of service_step "{e. is_log e}" evs, OF this]
  show ?thesis by (auto simp: list_all_iff)
qed

text \<open>
  C1. While every snapshot has an absent or empty ingress list, discovery has no result:
  if the watch ends there, it returns \<open>None\<close>. At the first snapshot with a non-empty
  ingress list it returns \<^verbatim>\<open>http://<address>:5000/predict\<close>, where the address is the IP of
  the first entry and, when the IP is absent (or empty), its hostname as Python formats
  it; it has then taken exactly that many events from the watch and takes no more,
  whatever follows.
\<close>

theorem endpoint_discovery:
  assumes "list_all empty_ingress pre"
  shows "(list_namespaced_service a namespace (label_selector_str items) = map Event pre \<longrightarrow>
            snd (get_service_external_endpoint a name namespace (Some items)) = Inr None)
       \<and> (list_namespaced_service a namespace (label_selector_str items)
              = map Event pre @ Event ev # rest
          \<and> ingress (ev_object ev) = Some (i # others) \<longrightarrow>
            snd (get_service_external_endpoint a name namespace (Some items))
              = Inr (Some (''http://''
                            @ (case ip i of
                                 None \<Rightarrow> py_str (hostname i)
                               | Some addr \<Rightarrow> if addr = [] then py_str (hostname i) else addr)
                            @ '':5000/predict''))
          \<and> count_list (fst (get_service_external_endpoint a name namespace (Some items))) Consume
              = Suc (length pre))"
proof (intro conjI impI)
  assume s: "list_namespaced_service a namespace (label_selector_str items) = map Event pre"
  have "snd (watch_loop service_step (map Event pre @ [])) = Continue"
    by (simp only: watch_loop_skip [OF service_waiting_prefix [OF assms]]) simp
  then show "snd (get_service_external_endpoint a name namespace (Some items)) = Inr None"
    using s by (simp add: endpoint_unfold)
next
  assume h: "list_namespaced_service a namespace (label_selector_str items)
              = map Event pre @ Event ev # rest \<and> ingress (ev_object ev) = Some (i # others)"
  note w = service_watch_resolves [OF assms, of ev i others rest]
  have addr: "py_str (py_or (ip i) (hostname i)) =
      (case ip i of None \<Rightarrow> py_str (hostname i)
       | Some addr \<Rightarrow> if addr = [] then py_str (hostname i) else addr)"
    by (cases "ip i") simp_all
  show "snd (get_service_external_endpoint a name namespace (Some items))
              = Inr (Some (''http://''
                            @ (case ip i of
                                 None \<Rightarrow> py_str (hostname i)
                               | Some addr \<Rightarrow> if addr = [] then py_str (hostname i) else addr)
                            @ '':5000/predict''))"
    using h w addr by (simp add: endpoint_unfold)
  show "count_list (fst (get_service_external_endpoint a name namespace (Some items))) Consume
              = Suc (length pre)"
    using h w by (simp add: endpoint_unfold count_consume_skip service_step_no_consume)
qed

text \<open>
  The scenario of the specification: selector \<^verbatim>\<open>{app: predictor}\<close>, two events without
  ingress, then one with \<^verbatim>\<open>[{ip: "10.0.0.5"}]\<close>.
\<close>

theorem endpoint_discovery_witness:
  "list_all empty_ingress [service_event None, service_event (Some [])]
   \<and> snd (get_service_external_endpoint
            (client [Event (service_event None), Event (service_event (Some [])),
                     Event (service_event (Some [\<lparr>ip = Some ''10.0.0.5'', hostname = None\<rparr>]))]
               [] no_tail)
            ''predictor'' ''default'' (Some [(''app'', ''predictor'')]))
       = Inr (Some ''http://10.0.0.5:5000/predict'')"
proof -
  have h: "list_all empty_ingress [service_event None, service_event (Some [])]"
    by (simp add: empty_ingress_def service_event_def)
  show ?thesis
    using h endpoint_discovery [OF h,
        where a = "client [Event (service_event None), Event (service_event (Some [])),
                     Event (service_event (Some [\<lparr>ip = Some ''10.0.0.5'', hostname = None\<rparr>]))]
               [] no_tail"
          and namespace = "''default''" and items = "[(''app'', ''predictor'')]"
          and name = "''predictor''"
          and ev = "service_event (Some [\<lparr>ip = Some ''10.0.0.5'', hostname = None\<rparr>])"
          and rest = "[]" and i = "\<lparr>ip = Some ''10.0.0.5'', hostname = None\<rparr>" and others = "[]"]
    by (simp add: client_def service_event_def)
qed


section \<open>Pod log acquisition\<close>

lemma log_unfold:
  "log a name namespace (Some items) container follow =
     (case snd (watch_boundary name
                  (snd (watch_loop (pod_step a namespace follow container)
                          (list_namespaced_pod a namespace (label_selector_str items))))) of
        Inl e \<Rightarrow>
          (Stream Pods namespace (label_selector_str items)
             # fst (watch_loop (pod_step a namespace follow container)
                      (list_namespaced_pod a namespace (label_selector_str items)))
             @ fst (watch_boundary name
                      (snd (watch_loop (pod_step a namespace follow container)
                              (list_namespaced_pod a namespace (label_selector_str items))))),
           Inl e)
      | Inr tail \<Rightarrow>
          (Stream Pods namespace (label_selector_str items)
             # fst (watch_loop (pod_step a namespace follow container)
                      (list_namespaced_pod a namespace (label_selector_str items)))
             @ fst (watch_boundary name
                      (snd (watch_loop (pod_step a namespace follow container)
                              (list_namespaced_pod a namespace (label_selector_str items)))))
             @ fst (drain tail),
           snd (drain tail)))"
  by (simp add: log_def Let_def case_prod_beta split: sum.splits)

lemma pod_step_waiting:
  "keeps_waiting ev \<Longrightarrow> snd (pod_step a ns f c ev) = Continue"
  by (auto simp: keeps_waiting_def pod_step_def log_eligible_def launch_failed_def
      first_waiting_def first_status_def Let_def split: option.splits list.splits if_splits)

text \<open>
  One iteration either only logs and does not leave the loop with a handle, or it logs
  twice, asks for the pod log once, and ends the loop with what the client answered.
\<close>

lemma pod_step_cases:
  "(list_all is_log (fst (pod_step a ns f c ev)) \<and> (\<forall>h. snd (pod_step a ns f c ev) \<noteq> Break h))
   \<or> (\<exists>l1 lv l2. fst (pod_step a ns f c ev)
          = [Log DEBUG l1, Log lv l2, ReadPodLog (metadata_name (ev_object ev)) ns f c]
        \<and> snd (pod_step a ns f c ev) =
            (case read_namespaced_pod_log a (metadata_name (ev_object ev)) ns f c of
               Inl e \<Rightarrow> Raised e | Inr h \<Rightarrow> Break h))"
  by (auto simp: pod_step_def open_tail_def Let_def split: sum.splits bool.splits)

lemma pod_step_waiting_logs:
  "keeps_waiting ev \<Longrightarrow> list_all is_log (fst (pod_step a ns f c ev))"
  using pod_step_cases [of a ns f c ev] pod_step_waiting [of ev a ns f c]
  by (auto split: sum.splits)

lemma pod_step_no_consume: "Consume \<notin> set (fst (pod_step a ns f c ev))"
  using pod_step_cases [of a ns f c ev] by (auto simp: list_all_iff)

lemma pod_waiting_prefix:
  "list_all keeps_waiting pre \<Longrightarrow>
   list_all (\<lambda>ev. snd (pod_step a ns f c ev) = Continue) pre"
  by (simp add: list_all_iff pod_step_waiting)

lemma pod_waiting_effects:
  assumes "list_all keeps_waiting pre"
  shows "list_all (\<lambda>e. e = Consume \<or> is_log e)
           (concat (map (\<lambda>ev. Consume # fst (pod_step a ns f c ev)) pre))"
proof (rule skipped_effects)
  fix ev assume "ev \<in> set pre"
  with assms have "keeps_waiting ev" by (simp add: list_all_iff)
  then show "list_all (\<lambda>e. e = Consume \<or> is_log e) (fst (pod_step a ns f c ev))"
    using pod_step_waiting_logs [of ev a ns f c] by (simp add: list_all_iff)
qed simp

lemma pod_step_ready:
  assumes "log_ready (ev_object ev)"
  shows "\<exists>l1 l2. pod_step a ns f c ev =
           ([Log DEBUG l1, Log INFO l2, ReadPodLog (metadata_name (ev_object ev)) ns f c],
            (case read_namespaced_pod_log a (metadata_name (ev_object ev)) ns f c of
               Inl e \<Rightarrow> Raised e | Inr h \<Rightarrow> Break h))"
  using assms
  by (auto simp: log_ready_def pod_step_def log_eligible_def first_status_def open_tail_def Let_def
      split: option.splits list.splits)

lemma pod_step_failed:
  assumes "failed_launch ev d"
  shows "\<exists>l1. pod_step a ns f c ev =
           ([Log DEBUG l1,
             Log ERROR (''Failed to launch '' @ metadata_name (ev_object ev)
                        @ '', reason: '' @ py_str (reason d)
                        @ '', message: '' @ py_str (message d)),
             ReadPodLog (metadata_name (ev_object ev)) ns f c],
            (case read_namespaced_pod_log a (metadata_name (ev_object ev)) ns f c of
               Inl e \<Rightarrow> Raised e | Inr h \<Rightarrow> Break h))"
  using assms
  by (auto simp: failed_launch_def pod_step_def log_eligible_def launch_failed_def first_waiting_def
      terminated_detail_def first_status_def open_tail_def Let_def
      split: option.splits list.splits if_splits)

lemma relay_prints: "list_all is_print (fst (relay xs))"
proof (induction xs)
  case Nil
  then show ?case by simp
next
  case (Cons x xs)
  then show ?case
    by (cases x) (auto split: sum.splits prod.splits)
qed

lemma drain_effects: "list_all (\<lambda>e. is_print e \<or> e = ReleaseConn) (fst (drain tail))"
  using relay_prints [of "the tail MAX_STREAM_BYTES"]
  by (cases tail) (auto simp: drain_def list_all_iff split: prod.splits)

text \<open>After the watch, \<open>log\<close> only writes diagnostics, prints and releases.\<close>

lemma log_trace_shape:
  "\<exists>t3. fst (log a name ns (Some items) container follow) =
          Stream Pods ns (label_selector_str items)
            # fst (watch_loop (pod_step a ns follow container)
                     (list_namespaced_pod a ns (label_selector_str items))) @ t3
        \<and> list_all (\<lambda>e. is_log e \<or> is_print e \<or> e = ReleaseConn) t3"
proof (cases "snd (watch_boundary name
                  (snd (watch_loop (pod_step a ns follow container)
                          (list_namespaced_pod a ns (label_selector_str items)))))")
  case (Inl e)
  then show ?thesis
    using boundary_logs [of name "snd (watch_loop (pod_step a ns follow container)
                          (list_namespaced_pod a ns (label_selector_str items)))"]
    by (auto simp: log_unfold list_all_iff)
next
  case (Inr tail)
  then show ?thesis
    using boundary_logs [of name "snd (watch_loop (pod_step a ns follow container)
                          (list_namespaced_pod a ns (label_selector_str items)))"]
      drain_effects [of tail]
    by (auto simp: log_unfold list_all_iff)
qed

lemma after_watch_quiet:
  assumes "list_all (\<lambda>e. is_log e \<or> is_print e \<or> e = ReleaseConn) t"
  shows "filter is_open t = [] \<and> count_list t Consume = 0 \<and> filter is_stream t = []"
proof -
  have "\<And>e. e \<in> set t \<Longrightarrow> \<not> is_open e \<and> e \<noteq> Consume \<and> \<not> is_stream e"
    using assms is_log_other is_print_other by (fastforce simp: list_all_iff)
  then show ?thesis
    by (auto simp: filter_empty_conv count_list_0_iff)
qed

lemma waiting_quiet:
  assumes "list_all (\<lambda>e. e = Consume \<or> is_log e) t"
  shows "filter is_open t = [] \<and> filter is_print t = [] \<and> ReleaseConn \<notin> set t"
proof -
  have "\<And>e. e \<in> set t \<Longrightarrow> \<not> is_open e \<and> \<not> is_print e \<and> e \<noteq> ReleaseConn"
    using assms is_log_other by (fastforce simp: list_all_iff)
  then show ?thesis
    by (auto simp: filter_empty_conv)
qed

text \<open>
  The watch up to the event that ends it: the events before are skipped, the event
  itself asks for the pod log once, and nothing is taken from the watch afterwards.
\<close>

lemma log_stops_at:
  assumes stream: "list_namespaced_pod a ns (label_selector_str items)
                     = map Event pre @ Event ev # rest"
    and pre: "list_all keeps_waiting pre"
    and step: "pod_step a ns follow container ev =
                 ([Log DEBUG l1, Log lv l2, ReadPodLog n ns follow container],
                  (case read_namespaced_pod_log a n ns follow container of
                     Inl e \<Rightarrow> Raised e | Inr h \<Rightarrow> Break h))"
  shows "\<exists>t1 t2. fst (log a name ns (Some items) container follow) = t1 @ Consume # t2
           \<and> count_list t1 Consume = length pre \<and> filter is_open t1 = []
           \<and> Log lv l2 \<in> set t2
           \<and> filter is_open t2 = [ReadPodLog n ns follow container]
           \<and> count_list t2 Consume = 0"
proof -
  let ?body = "pod_step a ns follow container"
  let ?skip = "concat (map (\<lambda>ev. Consume # fst (?body ev)) pre)"
  have "snd (?body ev) \<noteq> Continue"
    using step by (simp split: sum.splits)
  from watch_loop_stop [OF pod_waiting_prefix [OF pre] this, of rest]
  have w: "fst (watch_loop ?body (map Event pre @ Event ev # rest))
             = ?skip @ Consume # fst (?body ev)"
    by simp
  obtain t3 where t3: "fst (log a name ns (Some items) container follow) =
      Stream Pods ns (label_selector_str items) # (?skip @ Consume # fst (?body ev)) @ t3"
    and q: "list_all (\<lambda>e. is_log e \<or> is_print e \<or> e = ReleaseConn) t3"
    using log_trace_shape [of a name ns items container follow] stream w by auto
  let ?t1 = "Stream Pods ns (label_selector_str items) # ?skip"
  let ?t2 = "fst (?body ev) @ t3"
  have "fst (log a name ns (Some items) container follow) = ?t1 @ Consume # ?t2"
    using t3 by simp
  moreover have "count_list ?t1 Consume = length pre"
    by (simp add: count_consume_skip pod_step_no_consume)
  moreover have "filter is_open ?t1 = []"
    using waiting_quiet [OF pod_waiting_effects [OF pre]] by simp
  moreover have "Log lv l2 \<in> set ?t2"
    using step by simp
  moreover have "filter is_open ?t2 = [ReadPodLog n ns follow container]"
    using step after_watch_quiet [OF q] by simp
  moreover have "count_list ?t2 Consume = 0"
    using step after_watch_quiet [OF q] by simp
  ultimately show ?thesis by blast
qed

lemma pod_watch_open:
  "ReadPodLog n ns' f' c' \<in> set (fst (watch_loop (pod_step a ns f c) evs)) \<Longrightarrow>
   snd (watch_loop (pod_step a ns f c) evs) =
     (case read_namespaced_pod_log a n ns' f' c' of Inl e \<Rightarrow> Raised e | Inr h \<Rightarrow> Break h)"
proof (induction evs)
  case Nil
  then show ?case by simp
next
  case (Cons x evs)
  show ?case
  proof (cases x)
    case (Raise e)
    with Cons.prems show ?thesis by simp
  next
    case (Event ev)
    obtain t s where b: "pod_step a ns f c ev = (t, s)" by (cases "pod_step a ns f c ev")
    from pod_step_cases [of a ns f c ev] b
    consider (quiet) "list_all is_log t" "\<forall>h. s \<noteq> Break h"
      | (opened) l1 lv l2 where
          "t = [Log DEBUG l1, Log lv l2, ReadPodLog (metadata_name (ev_object ev)) ns f c]"
          "s = (case read_namespaced_pod_log a (metadata_name (ev_object ev)) ns f c of
                  Inl e \<Rightarrow> Raised e | Inr h \<Rightarrow> Break h)"
      by auto
    then show ?thesis
    proof cases
      case quiet
      have notin: "ReadPodLog n ns' f' c' \<notin> set t"
        using quiet(1) by (auto simp: list_all_iff)
      show ?thesis
      proof (cases s)
        case Continue
        with Event b Cons.prems notin
        have "ReadPodLog n ns' f' c' \<in> set (fst (watch_loop (pod_step a ns f c) evs))"
          by (simp split: prod.splits)
        from Cons.IH [OF this] Event b Continue show ?thesis
          by (simp add: case_prod_beta)
      next
        case (Break h)
        with quiet(2) show ?thesis by simp
      next
        case (Raised e)
        with Event b Cons.prems notin show ?thesis by simp
      qed
    next
      case opened
      have "s \<noteq> Continue" using opened(2) by (simp split: sum.splits)
      then have w: "watch_loop (pod_step a ns f c) (x # evs) = (Consume # t, s)"
        using Event b by (cases s) simp_all
      with Cons.prems opened(1)
      have "n = metadata_name (ev_object ev) \<and> ns' = ns \<and> f' = f \<and> c' = c" by simp
      with w opened(2) show ?thesis by simp
    qed
  qed
qed

lemma pod_watch_effects:
  "list_all (\<lambda>e. e = Consume \<or> is_log e \<or> is_open e)
     (fst (watch_loop (pod_step a ns f c) evs))"
proof -
  have "\<And>ev. set (fst (pod_step a ns f c ev)) \<subseteq> {e. is_log e \<or> is_open e}"
    using pod_step_cases by (fastforce simp: list_all_iff)
  from watch_loop_effects [of "pod_step a ns f c" "{e. is_log e \<or> is_open e}" evs, OF this]
  show ?thesis by (auto simp: list_all_iff)
qed

lemma pod_watch_no_release: "ReleaseConn \<notin> set (fst (watch_loop (pod_step a ns f c) evs))"
  using pod_watch_effects [of a ns f c evs] is_log_other is_open_other
  by (fastforce simp: list_all_iff)

text \<open>
  Where the snapshots carry their first container status, the log is requested as
  intended. Let a log-eligible snapshot that carries its first container status (running
  with that container ready, or succeeded) come after snapshots that each are pending, or
  are not deleted, not failed, not log-eligible and carry a first container status whose
  state is not waiting. Then \<open>log\<close> asks for the pod log exactly once, at that snapshot:
  not before it has taken the snapshot from the watch, and never again; it takes no
  further event.
\<close>

lemma log_opens_once:
  assumes "list_namespaced_pod a namespace (label_selector_str items)
             = map Event pre @ Event ev # rest"
    and "list_all keeps_waiting pre"
    and "log_ready (ev_object ev)"
  shows "\<exists>t1 t2. fst (log a name namespace (Some items) container follow) = t1 @ Consume # t2
           \<and> count_list t1 Consume = length pre \<and> filter is_open t1 = []
           \<and> filter is_open t2
               = [ReadPodLog (metadata_name (ev_object ev)) namespace follow container]
           \<and> count_list t2 Consume = 0"
proof -
  obtain l1 l2 where "pod_step a namespace follow container ev =
           ([Log DEBUG l1, Log INFO l2,
             ReadPodLog (metadata_name (ev_object ev)) namespace follow container],
            (case read_namespaced_pod_log a (metadata_name (ev_object ev)) namespace follow
                    container of
               Inl e \<Rightarrow> Raised e | Inr h \<Rightarrow> Break h))"
    using pod_step_ready [OF assms(3)] by blast
  from log_stops_at [OF assms(1,2) this] show ?thesis by blast
qed

text \<open>
  The scenario of the specification: Pending, Pending, Running (not ready),
  Running (ready). Three events are taken without a request for the log; the request
  comes with the fourth.
\<close>

lemma log_opens_once_scenario:
  "list_all keeps_waiting
     [pod_event ''ADDED'' ''Pending'' None, pod_event ''MODIFIED'' ''Pending'' None,
      pod_event ''MODIFIED'' ''Running'' (Some [running_container False])]
   \<and> log_ready (ev_object (pod_event ''MODIFIED'' ''Running'' (Some [running_container True])))
   \<and> (\<exists>t1 t2.
        fst (log (client []
                    [Event (pod_event ''ADDED'' ''Pending'' None),
                     Event (pod_event ''MODIFIED'' ''Pending'' None),
                     Event (pod_event ''MODIFIED'' ''Running'' (Some [running_container False])),
                     Event (pod_event ''MODIFIED'' ''Running'' (Some [running_container True]))]
                    two_lines)
               ''job'' ''default'' (Some [(''app'', ''job'')]) [] True)
          = t1 @ Consume # t2
        \<and> count_list t1 Consume = 3 \<and> filter is_open t1 = []
        \<and> filter is_open t2 = [ReadPodLog ''job-0'' ''default'' True []]
        \<and> count_list t2 Consume = 0)"
proof -
  let ?pre = "[pod_event ''ADDED'' ''Pending'' None, pod_event ''MODIFIED'' ''Pending'' None,
      pod_event ''MODIFIED'' ''Running'' (Some [running_container False])]"
  let ?ev = "pod_event ''MODIFIED'' ''Running'' (Some [running_container True])"
  let ?a = "client [] (map Event ?pre @ Event ?ev # []) two_lines"
  have s: "list_namespaced_pod ?a ''default'' (label_selector_str [(''app'', ''job'')])
             = map Event ?pre @ Event ?ev # []"
    by (simp add: client_def)
  have w: "list_all keeps_waiting ?pre"
    by (simp add: keeps_waiting_def pod_event_def running_container_def)
  have r: "log_ready (ev_object ?ev)"
    by (simp add: log_ready_def pod_event_def running_container_def)
  have n: "metadata_name (ev_object ?ev) = ''job-0''"
    by (simp add: pod_event_def)
  show ?thesis
    using w r log_opens_once [OF s w r, of "''job''" "[]" True] n
    by (simp add: numeral_3_eq_3)
qed

text \<open>
  C2. Every sequence of pod events that reaches a running pod with its first container
  ready, or a succeeded pod, before any failure is to make \<open>log\<close> ask for the pod log
  exactly once. The code does so where the first container status is there (the two
  lemmas above, the second being the scenario Pending, Pending, Running not ready,
  Running ready). It does not on a succeeded pod whose container statuses are absent:
  the log-eligible branch is taken, the line that reports the start reads the first
  container status, \<open>log\<close> raises a \<^verbatim>\<open>TypeError\<close> that the watch boundary does not
  catch, and the pod log is never asked for.
\<close>

theorem succeeded_without_statuses_raises:
  "log (client [] [Event (pod_event ''MODIFIED'' ''Succeeded'' None)] two_lines)
     ''job'' ''default'' (Some [(''app'', ''job'')]) [] True
   = ([Stream Pods ''default'' ''app=job'', Consume, Log DEBUG ''Event: MODIFIED job-0 Succeeded''],
      Inl (Exn TypeError ''NoneType object is not subscriptable''))"
  by (simp add: log_def client_def pod_event_def label_selector_str_def pod_step_def
      log_eligible_def first_status_def Let_def)

text \<open>
  C3 (amended). Let a failure event come after snapshots that keep the watch waiting:
  an event that is not pending and not log-eligible, that is a DELETED event or has phase
  Failed or has its first container waiting, and whose first container status carries a
  terminated state. Then \<open>log\<close> writes the reason and the message of that terminated
  state as an error diagnostic, asks for the pod log exactly once, and takes no further
  event.
\<close>

theorem log_failed_launch:
  assumes "list_namespaced_pod a namespace (label_selector_str items)
             = map Event pre @ Event ev # rest"
    and "list_all keeps_waiting pre"
    and "failed_launch ev d"
  shows "\<exists>t1 t2. fst (log a name namespace (Some items) container follow) = t1 @ Consume # t2
           \<and> count_list t1 Consume = length pre \<and> filter is_open t1 = []
           \<and> Log ERROR (''Failed to launch '' @ metadata_name (ev_object ev)
                         @ '', reason: '' @ py_str (reason d)
                         @ '', message: '' @ py_str (message d)) \<in> set t2
           \<and> filter is_open t2
               = [ReadPodLog (metadata_name (ev_object ev)) namespace follow container]
           \<and> count_list t2 Consume = 0"
proof -
  obtain l1 where "pod_step a namespace follow container ev =
           ([Log DEBUG l1,
             Log ERROR (''Failed to launch '' @ metadata_name (ev_object ev)
                        @ '', reason: '' @ py_str (reason d)
                        @ '', message: '' @ py_str (message d)),
             ReadPodLog (metadata_name (ev_object ev)) namespace follow container],
            (case read_namespaced_pod_log a (metadata_name (ev_object ev)) namespace follow
                    container of
               Inl e \<Rightarrow> Raised e | Inr h \<Rightarrow> Break h))"
    using pod_step_failed [OF assms(3)] by blast
  from log_stops_at [OF assms(1,2) this] show ?thesis by blast
qed

text \<open>The scenario of the specification: Pending, then Failed with reason OOMKilled.\<close>

theorem log_failed_launch_witness:
  "list_all keeps_waiting [pod_event ''ADDED'' ''Pending'' None]
   \<and> failed_launch (pod_event ''MODIFIED'' ''Failed'' (Some [terminated_container])) oom_killed
   \<and> (\<exists>t1 t2.
        fst (log (client []
                    [Event (pod_event ''ADDED'' ''Pending'' None),
                     Event (pod_event ''MODIFIED'' ''Failed'' (Some [terminated_container])),
                     Event (pod_event ''DELETED'' ''Failed'' (Some [terminated_container]))]
                    two_lines)
               ''job'' ''default'' (Some [(''app'', ''job'')]) [] True)
          = t1 @ Consume # t2
        \<and> count_list t1 Consume = 1 \<and> filter is_open t1 = []
        \<and> Log ERROR ''Failed to launch job-0, reason: OOMKilled, message: out of memory''
            \<in> set t2
        \<and> filter is_open t2 = [ReadPodLog ''job-0'' ''default'' True []]
        \<and> count_list t2 Consume = 0)"
proof -
  let ?pre = "[pod_event ''ADDED'' ''Pending'' None]"
  let ?ev = "pod_event ''MODIFIED'' ''Failed'' (Some [terminated_container])"
  let ?rest = "[Event (pod_event ''DELETED'' ''Failed'' (Some [terminated_container]))]"
  let ?a = "client [] (map Event ?pre @ Event ?ev # ?rest) two_lines"
  have s: "list_namespaced_pod ?a ''default'' (label_selector_str [(''app'', ''job'')])
             = map Event ?pre @ Event ?ev # ?rest"
    by (simp add: client_def)
  have w: "list_all keeps_waiting ?pre"
    by (simp add: keeps_waiting_def pod_event_def)
  have f: "failed_launch ?ev oom_killed"
    by (simp add: failed_launch_def pod_event_def terminated_container_def)
  have n: "metadata_name (ev_object ?ev) = ''job-0''"
    by (simp add: pod_event_def)
  have d: "py_str (reason oom_killed) = ''OOMKilled''
           \<and> py_str (message oom_killed) = ''out of memory''"
    by (simp add: oom_killed_def)
  show ?thesis
    using w f log_failed_launch [OF s w f, of "''job''" "[]" True] n d by simp
qed

text \<open>
  The claim as stated fails on a DELETED event of a pending pod, although its first
  container has terminated: the pending branch comes first, \<open>log\<close> writes the waiting
  line, asks for no pod log and goes on to the next event.
\<close>

theorem log_failed_launch_counterexample:
  "log (client []
          [Event (pod_event ''DELETED'' ''Pending'' (Some [terminated_container])),
           Event (pod_event ''MODIFIED'' ''Pending'' None)]
          two_lines)
     ''job'' ''default'' (Some [(''app'', ''job'')]) [] True
   = ([Stream Pods ''default'' ''app=job'',
       Consume, Log DEBUG ''Event: DELETED job-0 Pending'',
       Log WARNING ''Waiting for job-0 to start...'',
       Consume, Log DEBUG ''Event: MODIFIED job-0 Pending'',
       Log WARNING ''Waiting for job-0 to start...''],
      Inr ())"
  by (simp add: log_def client_def pod_event_def label_selector_str_def pod_step_def Let_def
      drain_def)

text \<open>
  Without container statuses only the pending branch goes through; every other phase
  reads the first container status and raises.
\<close>

lemma absent_statuses_step:
  assumes "container_statuses (ev_object ev) = None"
  shows "snd (pod_step a ns f c ev) =
           (if phase (ev_object ev) = Some ''Pending'' then Continue
            else Raised (Exn TypeError ''NoneType object is not subscriptable''))"
  using assms
  by (auto simp: pod_step_def log_eligible_def launch_failed_def first_waiting_def
      terminated_detail_def first_status_def Let_def split: bool.splits)

text \<open>
  C4. A failed pod without container statuses (it failed before a container started):
  the failure branch reads the first container status for its diagnostic, and \<open>log\<close>
  ends with a \<^verbatim>\<open>TypeError\<close> that the watch boundary does not catch. Absent container
  statuses are not tolerated there.
\<close>

theorem absent_statuses_raise:
  "log (client [] [Event (pod_event ''MODIFIED'' ''Failed'' None)] two_lines)
     ''job'' ''default'' (Some [(''app'', ''job'')]) [] True
   = ([Stream Pods ''default'' ''app=job'', Consume, Log DEBUG ''Event: MODIFIED job-0 Failed''],
      Inl (Exn TypeError ''NoneType object is not subscriptable''))"
  by (simp add: log_def client_def pod_event_def label_selector_str_def pod_step_def
      log_eligible_def launch_failed_def terminated_detail_def first_status_def Let_def)

text \<open>
  C5. Whenever \<open>log\<close> has asked for a pod log and the client has answered with an open
  response, the response is released exactly once, as the last thing \<open>log\<close> does, and
  \<open>log\<close> ends as the relay of the chunks ended: normally when the chunks were drained,
  with the exception when reading or decoding raised.
\<close>

theorem log_handle_released_once:
  assumes "ReadPodLog n ns' f' c' \<in> set (fst (log a name namespace (Some items) container follow))"
    and "read_namespaced_pod_log a n ns' f' c' = Inr h"
  shows "count_list (fst (log a name namespace (Some items) container follow)) ReleaseConn = 1
       \<and> last (fst (log a name namespace (Some items) container follow)) = ReleaseConn
       \<and> snd (log a name namespace (Some items) container follow) = snd (relay (h MAX_STREAM_BYTES))"
proof -
  let ?w = "watch_loop (pod_step a namespace follow container)
              (list_namespaced_pod a namespace (label_selector_str items))"
  obtain t3 where shape: "fst (log a name namespace (Some items) container follow) =
          Stream Pods namespace (label_selector_str items) # fst ?w @ t3"
    and q: "list_all (\<lambda>e. is_log e \<or> is_print e \<or> e = ReleaseConn) t3"
    using log_trace_shape [of a name namespace items container follow] by blast
  have "ReadPodLog n ns' f' c' \<notin> set t3"
    using q by (auto simp: list_all_iff)
  with assms(1) shape have "ReadPodLog n ns' f' c' \<in> set (fst ?w)" by simp
  from pod_watch_open [OF this] assms(2) have s: "snd ?w = Break h" by simp
  obtain tr r where rel: "relay (h MAX_STREAM_BYTES) = (tr, r)"
    by (cases "relay (h MAX_STREAM_BYTES)")
  have full: "log a name namespace (Some items) container follow =
      (Stream Pods namespace (label_selector_str items) # fst ?w @ tr @ [ReleaseConn], r)"
    using s rel by (simp add: log_unfold drain_def)
  have "ReleaseConn \<notin> set tr"
    using relay_prints [of "h MAX_STREAM_BYTES"] rel is_print_other
    by (fastforce simp: list_all_iff)
  moreover have "ReleaseConn \<notin> set (fst ?w)" by (rule pod_watch_no_release)
  ultimately show ?thesis
    using full rel by (simp add: count_list_0_iff)
qed

text \<open>A response whose second read breaks: one line is printed, the response is released,
  and the error leaves \<open>log\<close>.\<close>

theorem log_handle_released_once_witness:
  "log (client [] [Event (pod_event ''MODIFIED'' ''Running'' (Some [running_container True]))]
          broken_tail)
     ''job'' ''default'' (Some [(''app'', ''job'')]) [] True
   = ([Stream Pods ''default'' ''app=job'', Consume,
       Log DEBUG ''Event: MODIFIED job-0 Running'', Log INFO ''Pod started running True'',
       ReadPodLog ''job-0'' ''default'' True [], Print ''epoch 1'', ReleaseConn],
      Inl (Exn OtherError ''Connection broken''))
   \<and> count_list
        (fst (log (client []
                     [Event (pod_event ''MODIFIED'' ''Running'' (Some [running_container True]))]
                     broken_tail)
                ''job'' ''default'' (Some [(''app'', ''job'')]) [] True))
        ReleaseConn = 1"
proof -
  let ?a = "client [] [Event (pod_event ''MODIFIED'' ''Running'' (Some [running_container True]))]
              broken_tail"
  have run: "log ?a ''job'' ''default'' (Some [(''app'', ''job'')]) [] True
   = ([Stream Pods ''default'' ''app=job'', Consume,
       Log DEBUG ''Event: MODIFIED job-0 Running'', Log INFO ''Pod started running True'',
       ReadPodLog ''job-0'' ''default'' True [], Print ''epoch 1'', ReleaseConn],
      Inl (Exn OtherError ''Connection broken''))"
    by (simp add: log_def client_def pod_event_def running_container_def label_selector_str_def
        pod_step_def log_eligible_def first_status_def open_tail_def broken_tail_def Let_def
        drain_def decode_utf8_def rstrip_def is_space_def)
  have opened: "ReadPodLog ''job-0'' ''default'' True []
                  \<in> set (fst (log ?a ''job'' ''default'' (Some [(''app'', ''job'')]) [] True))"
    by (simp add: run)
  have answer: "read_namespaced_pod_log ?a ''job-0'' ''default'' True []
                  = Inr (\<lambda>amt. [Event ''epoch 1'', Raise (Exn OtherError ''Connection broken'')])"
    by (simp add: client_def broken_tail_def)
  show ?thesis
    using run log_handle_released_once [OF opened answer] by simp
qed


section \<open>The label selector sent to the watch\<close>

lemma streams_opened:
  "filter is_stream (fst (get_service_external_endpoint a name namespace (Some items)))
     = [Stream Services namespace (label_selector_str items)]
   \<and> filter is_stream (fst (log a name namespace (Some items) container follow))
     = [Stream Pods namespace (label_selector_str items)]"
proof
  let ?sw = "watch_loop service_step
               (list_namespaced_service a namespace (label_selector_str items))"
  have "\<And>e. e \<in> set (fst ?sw) \<Longrightarrow> \<not> is_stream e"
    using service_watch_effects [of "list_namespaced_service a namespace (label_selector_str items)"]
      is_log_other by (fastforce simp: list_all_iff)
  moreover have "\<And>e. e \<in> set (fst (watch_boundary name (snd ?sw))) \<Longrightarrow> \<not> is_stream e"
    using boundary_logs [of name "snd ?sw"] is_log_other by (fastforce simp: list_all_iff)
  ultimately
  show "filter is_stream (fst (get_service_external_endpoint a name namespace (Some items)))
     = [Stream Services namespace (label_selector_str items)]"
    by (simp add: endpoint_unfold filter_empty_conv)
next
  let ?pw = "watch_loop (pod_step a namespace follow container)
               (list_namespaced_pod a namespace (label_selector_str items))"
  obtain t3 where shape: "fst (log a name namespace (Some items) container follow) =
          Stream Pods namespace (label_selector_str items) # fst ?pw @ t3"
    and q: "list_all (\<lambda>e. is_log e \<or> is_print e \<or> e = ReleaseConn) t3"
    using log_trace_shape [of a name namespace items container follow] by blast
  have "\<And>e. e \<in> set (fst ?pw) \<Longrightarrow> \<not> is_stream e"
    using pod_watch_effects [of a namespace follow container
        "list_namespaced_pod a namespace (label_selector_str items)"]
      is_log_other is_open_other by (fastforce simp: list_all_iff)
  then show "filter is_stream (fst (log a name namespace (Some items) container follow))
     = [Stream Pods namespace (label_selector_str items)]"
    using shape after_watch_quiet [OF q]
    by (simp add: filter_empty_conv)
qed

text \<open>
  C6 (amended). Both watch operations open exactly one event stream, and the label
  selector they send is the \<^verbatim>\<open>key=value\<close> pairs of the selector in the order in which the
  mapping iterates, joined by a comma and a space; the keys are not sorted.
\<close>

theorem label_selector_sent:
  "filter is_stream (fst (get_service_external_endpoint a name namespace (Some items)))
     = [Stream Services namespace (join '', '' (map (\<lambda>(k, v). k @ ''='' @ v) items))]
   \<and> filter is_stream (fst (log a name namespace (Some items) container follow))
     = [Stream Pods namespace (join '', '' (map (\<lambda>(k, v). k @ ''='' @ v) items))]"
  using streams_opened [of a name namespace items container follow]
  by (simp add: label_selector_str_def)

text \<open>
  The selector \<^verbatim>\<open>{b: 1, a: 2}\<close> is sent as \<^verbatim>\<open>b=1, a=2\<close>; sorted keys joined by a comma
  would give \<^verbatim>\<open>a=2,b=1\<close>.
\<close>

theorem label_selector_sent_counterexample:
  "filter is_stream
     (fst (get_service_external_endpoint (client [] [] no_tail) ''svc'' ''default''
             (Some [(''b'', ''1''), (''a'', ''2'')])))
     = [Stream Services ''default'' ''b=1, a=2'']
   \<and> label_selector_spec [(''b'', ''1''), (''a'', ''2'')] = ''a=2,b=1''"
proof
  show "filter is_stream
     (fst (get_service_external_endpoint (client [] [] no_tail) ''svc'' ''default''
             (Some [(''b'', ''1''), (''a'', ''2'')])))
     = [Stream Services ''default'' ''b=1, a=2'']"
    by (simp add: get_service_external_endpoint_def client_def label_selector_str_def)
  show "label_selector_spec [(''b'', ''1''), (''a'', ''2'')] = ''a=2,b=1''"
    by code_simp
qed

section \<open>Errors at the watch boundary\<close>

lemma caught_iff:
  "caught c = (c = ValueError \<or> c = UnicodeDecodeError \<or> c = ApiException)"
  by (cases c) simp_all

lemma not_error_filter: "list_all (\<lambda>e. \<not> is_error e) t \<Longrightarrow> filter is_error t = []"
  by (simp add: filter_empty_conv list_all_iff)

lemma service_waiting_no_error:
  "list_all (\<lambda>e. \<not> is_error e) (concat (map (\<lambda>ev. Consume # fst (service_step ev)) pre))"
proof (rule skipped_effects)
  fix ev
  show "list_all (\<lambda>e. \<not> is_error e) (fst (service_step ev))"
    using service_step_effects [of ev] by (auto simp: list_all_iff)
qed simp

lemma pod_step_waiting_no_error:
  "keeps_waiting ev \<Longrightarrow> list_all (\<lambda>e. \<not> is_error e) (fst (pod_step a ns f c ev))"
  by (auto simp: keeps_waiting_def pod_step_def log_eligible_def launch_failed_def
      first_waiting_def first_status_def Let_def split: option.splits list.splits if_splits)

lemma pod_waiting_no_error:
  assumes "list_all keeps_waiting pre"
  shows "list_all (\<lambda>e. \<not> is_error e)
           (concat (map (\<lambda>ev. Consume # fst (pod_step a ns f c ev)) pre))"
proof (rule skipped_effects)
  fix ev assume "ev \<in> set pre"
  with assms have "keeps_waiting ev" by (simp add: list_all_iff)
  then show "list_all (\<lambda>e. \<not> is_error e) (fst (pod_step a ns f c ev))"
    by (rule pod_step_waiting_no_error)
qed simp

text \<open>What both operations do when the stream raises after events that keep them waiting.\<close>

lemma endpoint_stream_raises:
  assumes "list_all empty_ingress pre"
    and "list_namespaced_service a namespace (label_selector_str items)
           = map Event pre @ Raise e # rest"
  shows "get_service_external_endpoint a name namespace (Some items) =
           (Print ''Waiting for prediction endpoint to come up...''
              # Stream Services namespace (label_selector_str items)
              # concat (map (\<lambda>ev. Consume # fst (service_step ev)) pre)
              @ (if caught (exn_class_of e) then [status_error name e] else []),
            if caught (exn_class_of e) then Inr None else Inl e)"
  using assms(2) watch_loop_raise [OF service_waiting_prefix [OF assms(1)], of e rest]
  by (simp add: endpoint_unfold)

lemma log_stream_raises:
  assumes "list_all keeps_waiting pre"
    and "list_namespaced_pod a namespace (label_selector_str items)
           = map Event pre @ Raise e # rest"
  shows "log a name namespace (Some items) container follow =
           (Stream Pods namespace (label_selector_str items)
              # concat (map (\<lambda>ev. Consume # fst (pod_step a namespace follow container ev)) pre)
              @ (if caught (exn_class_of e) then [status_error name e] else []),
            if caught (exn_class_of e) then Inr () else Inl e)"
  using assms(2)
    watch_loop_raise [OF pod_waiting_prefix [OF assms(1)], of a namespace follow container e rest]
  by (simp add: log_unfold drain_def)

text \<open>
  C7 (amended). Let the event stream raise after snapshots that keep the watch waiting.
  If the exception is a \<^verbatim>\<open>ValueError\<close> (or of its subclass \<^verbatim>\<open>UnicodeDecodeError\<close>) or
  the client's \<^verbatim>\<open>ApiException\<close>, both operations return normally: the last thing they
  do is to write the error diagnostic, discovery returns \<open>None\<close>, and \<open>log\<close> prints no
  line, asks for no pod log and releases nothing. An exception of any other class (a
  broken connection, a read timeout) is not caught: it leaves the operation, and no
  error diagnostic is written.
\<close>

theorem watch_errors_contained:
  "(list_all empty_ingress spre
    \<and> list_namespaced_service a namespace (label_selector_str items)
        = map Event spre @ Raise e # srest \<longrightarrow>
      (exn_class_of e \<in> {ValueError, UnicodeDecodeError, ApiException} \<longrightarrow>
         snd (get_service_external_endpoint a name namespace (Some items)) = Inr None
         \<and> last (fst (get_service_external_endpoint a name namespace (Some items)))
             = Log ERROR (''error getting status for '' @ name @ '' '' @ exn_str e))
      \<and> (exn_class_of e \<notin> {ValueError, UnicodeDecodeError, ApiException} \<longrightarrow>
           snd (get_service_external_endpoint a name namespace (Some items)) = Inl e
           \<and> filter is_error (fst (get_service_external_endpoint a name namespace (Some items)))
               = []))
   \<and> (list_all keeps_waiting ppre
      \<and> list_namespaced_pod a namespace (label_selector_str items)
          = map Event ppre @ Raise e # prest \<longrightarrow>
        filter is_print (fst (log a name namespace (Some items) container follow)) = []
        \<and> filter is_open (fst (log a name namespace (Some items) container follow)) = []
        \<and> ReleaseConn \<notin> set (fst (log a name namespace (Some items) container follow))
        \<and> (exn_class_of e \<in> {ValueError, UnicodeDecodeError, ApiException} \<longrightarrow>
             snd (log a name namespace (Some items) container follow) = Inr ()
             \<and> last (fst (log a name namespace (Some items) container follow))
                 = Log ERROR (''error getting status for '' @ name @ '' '' @ exn_str e))
        \<and> (exn_class_of e \<notin> {ValueError, UnicodeDecodeError, ApiException} \<longrightarrow>
             snd (log a name namespace (Some items) container follow) = Inl e
             \<and> filter is_error (fst (log a name namespace (Some items) container follow)) = []))"
proof (intro conjI)
  show "list_all empty_ingress spre
    \<and> list_namespaced_service a namespace (label_selector_str items)
        = map Event spre @ Raise e # srest \<longrightarrow>
      (exn_class_of e \<in> {ValueError, UnicodeDecodeError, ApiException} \<longrightarrow>
         snd (get_service_external_endpoint a name namespace (Some items)) = Inr None
         \<and> last (fst (get_service_external_endpoint a name namespace (Some items)))
             = Log ERROR (''error getting status for '' @ name @ '' '' @ exn_str e))
      \<and> (exn_class_of e \<notin> {ValueError, UnicodeDecodeError, ApiException} \<longrightarrow>
           snd (get_service_external_endpoint a name namespace (Some items)) = Inl e
           \<and> filter is_error (fst (get_service_external_endpoint a name namespace (Some items)))
               = [])"
  proof
    assume h: "list_all empty_ingress spre
      \<and> list_namespaced_service a namespace (label_selector_str items)
          = map Event spre @ Raise e # srest"
    then have run: "get_service_external_endpoint a name namespace (Some items) =
           (Print ''Waiting for prediction endpoint to come up...''
              # Stream Services namespace (label_selector_str items)
              # concat (map (\<lambda>ev. Consume # fst (service_step ev)) spre)
              @ (if caught (exn_class_of e) then [status_error name e] else []),
            if caught (exn_class_of e) then Inr None else Inl e)"
      using endpoint_stream_raises [of spre a namespace items e srest name] by simp
    have q: "filter is_error (concat (map (\<lambda>ev. Consume # fst (service_step ev)) spre)) = []"
      by (rule not_error_filter [OF service_waiting_no_error])
    show "(exn_class_of e \<in> {ValueError, UnicodeDecodeError, ApiException} \<longrightarrow>
         snd (get_service_external_endpoint a name namespace (Some items)) = Inr None
         \<and> last (fst (get_service_external_endpoint a name namespace (Some items)))
             = Log ERROR (''error getting status for '' @ name @ '' '' @ exn_str e))
      \<and> (exn_class_of e \<notin> {ValueError, UnicodeDecodeError, ApiException} \<longrightarrow>
           snd (get_service_external_endpoint a name namespace (Some items)) = Inl e
           \<and> filter is_error (fst (get_service_external_endpoint a name namespace (Some items)))
               = [])"
      using q by (simp add: run caught_iff status_error_def)
  qed
next
  show "list_all keeps_waiting ppre
      \<and> list_namespaced_pod a namespace (label_selector_str items)
          = map Event ppre @ Raise e # prest \<longrightarrow>
        filter is_print (fst (log a name namespace (Some items) container follow)) = []
        \<and> filter is_open (fst (log a name namespace (Some items) container follow)) = []
        \<and> ReleaseConn \<notin> set (fst (log a name namespace (Some items) container follow))
        \<and> (exn_class_of e \<in> {ValueError, UnicodeDecodeError, ApiException} \<longrightarrow>
             snd (log a name namespace (Some items) container follow) = Inr ()
             \<and> last (fst (log a name namespace (Some items) container follow))
                 = Log ERROR (''error getting status for '' @ name @ '' '' @ exn_str e))
        \<and> (exn_class_of e \<notin> {ValueError, UnicodeDecodeError, ApiException} \<longrightarrow>
             snd (log a name namespace (Some items) container follow) = Inl e
             \<and> filter is_error (fst (log a name namespace (Some items) container follow)) = [])"
  proof
    assume h: "list_all keeps_waiting ppre
      \<and> list_namespaced_pod a namespace (label_selector_str items)
          = map Event ppre @ Raise e # prest"
    let ?skip = "concat (map (\<lambda>ev. Consume # fst (pod_step a namespace follow container ev)) ppre)"
    from h have run: "log a name namespace (Some items) container follow =
           (Stream Pods namespace (label_selector_str items) # ?skip
              @ (if caught (exn_class_of e) then [status_error name e] else []),
            if caught (exn_class_of e) then Inr () else Inl e)"
      using log_stream_raises [of ppre a namespace items e prest name container follow] by simp
    from h have q: "filter is_open ?skip = [] \<and> filter is_print ?skip = []
                    \<and> ReleaseConn \<notin> set ?skip"
      using waiting_quiet [OF pod_waiting_effects] by blast
    from h have r: "filter is_error ?skip = []"
      using not_error_filter [OF pod_waiting_no_error] by blast
    show "filter is_print (fst (log a name namespace (Some items) container follow)) = []
        \<and> filter is_open (fst (log a name namespace (Some items) container follow)) = []
        \<and> ReleaseConn \<notin> set (fst (log a name namespace (Some items) container follow))
        \<and> (exn_class_of e \<in> {ValueError, UnicodeDecodeError, ApiException} \<longrightarrow>
             snd (log a name namespace (Some items) container follow) = Inr ()
             \<and> last (fst (log a name namespace (Some items) container follow))
                 = Log ERROR (''error getting status for '' @ name @ '' '' @ exn_str e))
        \<and> (exn_class_of e \<notin> {ValueError, UnicodeDecodeError, ApiException} \<longrightarrow>
             snd (log a name namespace (Some items) container follow) = Inl e
             \<and> filter is_error (fst (log a name namespace (Some items) container follow)) = [])"
      using q r by (simp add: run caught_iff status_error_def)
  qed
qed

text \<open>
  Both watches fail after one quiet event: with an \<^verbatim>\<open>ApiException\<close>, which is caught,
  and with a broken connection, which is not.
\<close>

theorem watch_errors_contained_witness:
  "list_all empty_ingress [service_event None]
   \<and> list_all keeps_waiting [pod_event ''ADDED'' ''Pending'' None]
   \<and> snd (get_service_external_endpoint
        (client [Event (service_event None), Raise (Exn ApiException ''(401) Unauthorized'')]
           [Event (pod_event ''ADDED'' ''Pending'' None),
            Raise (Exn ApiException ''(401) Unauthorized'')] two_lines)
        ''job'' ''default'' (Some [(''app'', ''job'')])) = Inr None
   \<and> last (fst (get_service_external_endpoint
        (client [Event (service_event None), Raise (Exn ApiException ''(401) Unauthorized'')]
           [Event (pod_event ''ADDED'' ''Pending'' None),
            Raise (Exn ApiException ''(401) Unauthorized'')] two_lines)
        ''job'' ''default'' (Some [(''app'', ''job'')])))
       = Log ERROR ''error getting status for job (401) Unauthorized''
   \<and> snd (log
        (client [Event (service_event None), Raise (Exn ApiException ''(401) Unauthorized'')]
           [Event (pod_event ''ADDED'' ''Pending'' None),
            Raise (Exn ApiException ''(401) Unauthorized'')] two_lines)
        ''job'' ''default'' (Some [(''app'', ''job'')]) [] True) = Inr ()
   \<and> filter is_print (fst (log
        (client [Event (service_event None), Raise (Exn ApiException ''(401) Unauthorized'')]
           [Event (pod_event ''ADDED'' ''Pending'' None),
            Raise (Exn ApiException ''(401) Unauthorized'')] two_lines)
        ''job'' ''default'' (Some [(''app'', ''job'')]) [] True)) = []
   \<and> snd (get_service_external_endpoint
        (client [Event (service_event None), Raise (Exn OtherError ''Connection broken'')]
           [Event (pod_event ''ADDED'' ''Pending'' None),
            Raise (Exn OtherError ''Connection broken'')] two_lines)
        ''job'' ''default'' (Some [(''app'', ''job'')]))
       = Inl (Exn OtherError ''Connection broken'')
   \<and> snd (log
        (client [Event (service_event None), Raise (Exn OtherError ''Connection broken'')]
           [Event (pod_event ''ADDED'' ''Pending'' None),
            Raise (Exn OtherError ''Connection broken'')] two_lines)
        ''job'' ''default'' (Some [(''app'', ''job'')]) [] True)
       = Inl (Exn OtherError ''Connection broken'')"
proof -
  let ?api = "Exn ApiException ''(401) Unauthorized''"
  let ?net = "Exn OtherError ''Connection broken''"
  let ?a = "\<lambda>e. client [Event (service_event None), Raise e]
              [Event (pod_event ''ADDED'' ''Pending'' None), Raise e] two_lines"
  have s: "list_all empty_ingress [service_event None]"
    by (simp add: empty_ingress_def service_event_def)
  have p: "list_all keeps_waiting [pod_event ''ADDED'' ''Pending'' None]"
    by (simp add: keeps_waiting_def pod_event_def)
  show ?thesis
    using s p
      watch_errors_contained [
        where a = "?a ?api" and e = ?api
          and namespace = "''default''" and items = "[(''app'', ''job'')]"
          and spre = "[service_event None]" and srest = "[]"
          and ppre = "[pod_event ''ADDED'' ''Pending'' None]" and prest = "[]"
          and name = "''job''" and container = "[]" and follow = True]
      watch_errors_contained [
        where a = "?a ?net" and e = ?net
          and namespace = "''default''" and items = "[(''app'', ''job'')]"
          and spre = "[service_event None]" and srest = "[]"
          and ppre = "[pod_event ''ADDED'' ''Pending'' None]" and prest = "[]"
          and name = "''job''" and container = "[]" and follow = True]
    by (simp add: client_def)
qed

text \<open>
  The claim as stated fails on a transport error that is not an \<^verbatim>\<open>ApiException\<close>: a
  connection that breaks on the first read leaves both operations as the exception it
  is, and nothing is logged.
\<close>

theorem watch_errors_contained_counterexample:
  "get_service_external_endpoint
     (client [Raise (Exn OtherError ''Connection broken'')]
        [Raise (Exn OtherError ''Connection broken'')] two_lines)
     ''job'' ''default'' (Some [(''app'', ''job'')])
     = ([Print ''Waiting for prediction endpoint to come up...'',
         Stream Services ''default'' ''app=job''],
        Inl (Exn OtherError ''Connection broken''))
   \<and> log
        (client [Raise (Exn OtherError ''Connection broken'')]
           [Raise (Exn OtherError ''Connection broken'')] two_lines)
        ''job'' ''default'' (Some [(''app'', ''job'')]) [] True
     = ([Stream Pods ''default'' ''app=job''], Inl (Exn OtherError ''Connection broken''))"
  by (simp add: get_service_external_endpoint_def log_def client_def label_selector_str_def)

section \<open>Creating custom resources\<close>

text \<open>
  C8. When the client rejects the creation of a TFJob or of a KFService with an
  \<^verbatim>\<open>ApiException\<close>, the operation raises a \<^verbatim>\<open>RuntimeError\<close> whose message names the
  expected version of the custom resource definition, and not the client's exception;
  when the client returns, its result is returned unchanged.
\<close>

theorem crd_creation_reclassified:
  "(create (TF_JOB_GROUP c) (TF_JOB_VERSION c) namespace (TF_JOB_PLURAL c) job
      = Inl (Exn ApiException m) \<longrightarrow>
    create_tf_job c create namespace job
      = Inl (Exn RuntimeError (''Failed to create TFJob. Perhaps the CRD TFJob version ''
                               @ TF_JOB_VERSION c @ '' in not installed?'')))
   \<and> (create (TF_JOB_GROUP c) (TF_JOB_VERSION c) namespace (TF_JOB_PLURAL c) job = Inr r \<longrightarrow>
      create_tf_job c create namespace job = Inr r)
   \<and> (create (KFSERVING_GROUP c) (KFSERVING_VERSION c) namespace (KFSERVING_PLURAL c) job
        = Inl (Exn ApiException m) \<longrightarrow>
      create_kfserving c create namespace job
        = Inl (Exn RuntimeError
                 (''Failed to create KFService. Perhaps the CRD KFServing version ''
                  @ KFSERVING_VERSION c @ '' is not installed?'')))
   \<and> (create (KFSERVING_GROUP c) (KFSERVING_VERSION c) namespace (KFSERVING_PLURAL c) job
        = Inr r \<longrightarrow>
      create_kfserving c create namespace job = Inr r)"
  by (simp add: create_tf_job_def create_kfserving_def)

text \<open>A cluster without the definitions, and one that accepts the resource.\<close>

theorem crd_creation_reclassified_witness:
  "create_tf_job crd_names (\<lambda>g v ns p j. Inl (Exn ApiException ''(404) Not Found'')) ''default'' ()
     = (Inl (Exn RuntimeError
               ''Failed to create TFJob. Perhaps the CRD TFJob version v1beta2 in not installed?'')
        :: exn + string)
   \<and> create_kfserving crd_names (\<lambda>g v ns p j. Inl (Exn ApiException ''(404) Not Found''))
        ''default'' ()
     = (Inl (Exn RuntimeError
          ''Failed to create KFService. Perhaps the CRD KFServing version v1alpha1 is not installed?'')
        :: exn + string)
   \<and> create_tf_job crd_names (\<lambda>g v ns p j. Inr (g @ ''/'' @ v @ ''/'' @ ns @ ''/'' @ p))
        ''default'' ()
     = (Inr ''kubeflow.org/v1beta2/default/tfjobs'' :: exn + string)
   \<and> create_kfserving crd_names (\<lambda>g v ns p j. Inr (g @ ''/'' @ v @ ''/'' @ ns @ ''/'' @ p))
        ''default'' ()
     = (Inr ''serving.kubeflow.org/v1alpha1/default/kfservices'' :: exn + string)"
  using
    crd_creation_reclassified [of "\<lambda>g v ns p j. Inl (Exn ApiException ''(404) Not Found'')"
      crd_names "''default''" "()" "''(404) Not Found''" "''''"]
    crd_creation_reclassified [of "\<lambda>g v ns p j. Inr (g @ ''/'' @ v @ ''/'' @ ns @ ''/'' @ p)"
      crd_names "''default''" "()" "''''" "''kubeflow.org/v1beta2/default/tfjobs''"]
    crd_creation_reclassified [of "\<lambda>g v ns p j. Inr (g @ ''/'' @ v @ ''/'' @ ns @ ''/'' @ p)"
      crd_names "''default''" "()" "''''" "''serving.kubeflow.org/v1alpha1/default/kfservices''"]
  by (simp add: crd_names_def)

section \<open>The name argument and the selectors argument\<close>

text \<open>
  C9. Two calls that differ only in \<^verbatim>\<open>name\<close> against the same client return the same
  value or raise the same exception, and do the same things in the same order; only the
  text of an error diagnostic can differ. In particular the streams opened, the events
  taken, the pod log asked for and the lines printed are the same.
\<close>

theorem name_only_in_diagnostics:
  "snd (get_service_external_endpoint a name namespace selectors)
     = snd (get_service_external_endpoint a name' namespace selectors)
   \<and> map redact (fst (get_service_external_endpoint a name namespace selectors))
     = map redact (fst (get_service_external_endpoint a name' namespace selectors))
   \<and> snd (log a name namespace selectors container follow)
     = snd (log a name' namespace selectors container follow)
   \<and> map redact (fst (log a name namespace selectors container follow))
     = map redact (fst (log a name' namespace selectors container follow))"
proof (cases selectors)
  case None
  then show ?thesis
    by (simp add: get_service_external_endpoint_def log_def)
next
  case (Some items)
  let ?sw = "snd (watch_loop service_step
               (list_namespaced_service a namespace (label_selector_str items)))"
  let ?pw = "snd (watch_loop (pod_step a namespace follow container)
               (list_namespaced_pod a namespace (label_selector_str items)))"
  note s = boundary_name [of name ?sw name']
  note p = boundary_name [of name ?pw name']
  have "snd (get_service_external_endpoint a name namespace (Some items))
          = snd (get_service_external_endpoint a name' namespace (Some items))
        \<and> map redact (fst (get_service_external_endpoint a name namespace (Some items)))
          = map redact (fst (get_service_external_endpoint a name' namespace (Some items)))"
    using s by (simp add: endpoint_unfold)
  moreover
  have "snd (log a name namespace (Some items) container follow)
          = snd (log a name' namespace (Some items) container follow)
        \<and> map redact (fst (log a name namespace (Some items) container follow))
          = map redact (fst (log a name' namespace (Some items) container follow))"
    using p by (simp add: log_unfold split: sum.splits)
  ultimately show ?thesis using Some by simp
qed

text \<open>
  C10. Without the \<^verbatim>\<open>selectors\<close> argument both operations raise an
  \<^verbatim>\<open>AttributeError\<close> before they print, log or open anything. An empty selector is not
  refused: the stream is opened with the empty label selector.
\<close>

theorem selectors_required:
  "get_service_external_endpoint a name namespace None
     = ([], Inl (Exn AttributeError ''NoneType object has no attribute items''))
   \<and> log a name namespace None container follow
     = ([], Inl (Exn AttributeError ''NoneType object has no attribute items''))
   \<and> filter is_stream (fst (get_service_external_endpoint a name namespace (Some [])))
     = [Stream Services namespace []]
   \<and> filter is_stream (fst (log a name namespace (Some []) container follow))
     = [Stream Pods namespace []]"
  using streams_opened [of a name namespace "[]" container follow]
  by (simp add: get_service_external_endpoint_def log_def none_items_def label_selector_str_def)


end
